theory Spec2Isabelle
  imports Complex_Main "HOL-Library.Multiset" "HOL-Library.Log_Nat"
begin

section \<open>Odds positions: the handicap generator of \<^verbatim>\<open>lib/fen_generator.py\<close>\<close>

text \<open>
  The module computes a handicap budget from an opponent's rating, the match history and the
  time control, spends it by removing pieces of one side from the standard starting
  position, and estimates a rating back from a position.

  Conventions of the embedding.
  \<^item> Python numbers are real numbers: the forward pipeline is about an order test
    (\<open>current_sum + value < S\<close>) and about formulas, and is verified in exact arithmetic.
    The inverse estimator is about the exact value of a sum of thirty products, which the
    rounding of binary64 decides; it is therefore parameterised by the rounding function
    and instantiated twice, with the identity and with round-to-nearest-even.
  \<^item> Every \<open>raise\<close> of the source is a value: \<open>Inl\<close> of a \<open>py_error\<close>.
  \<^item> The three random draws of \<open>generate_odds_fen\<close> are explicit inputs (\<open>draws\<close>).
  \<^item> The functions of the python-chess library that the module calls are written out
    from that library's documented behaviour: squares are the numbers 0..63,
    \<open>square(file, rank) = rank * 8 + file\<close>, a board is a partial map from squares to
    pieces, and the FEN text that the library writes and reads back is represented by
    the board it denotes.
\<close>

subsection \<open>Pieces, squares, boards (python-chess)\<close>

datatype piece_type = PAWN | KNIGHT | BISHOP | ROOK | QUEEN | KING

datatype color = WHITE | BLACK

record piece =
  piece_type :: piece_type
  color :: color

type_synonym square = nat

type_synonym board = "square \<rightharpoonup> piece"

datatype py_error = ZeroDivisionError | ValueError | KeyError

definition square :: "nat \<Rightarrow> nat \<Rightarrow> square" where
  \<comment> \<open>\<open>chess.square(file_index, rank_index)\<close>\<close>
  "square file rank = rank * 8 + file"

definition square_file :: "square \<Rightarrow> nat" where
  \<comment> \<open>\<open>chess.square_file\<close>: \<open>square & 7\<close>\<close>
  "square_file sq = sq mod 8"

definition square_rank :: "square \<Rightarrow> nat" where
  \<comment> \<open>\<open>chess.square_rank\<close>: \<open>square >> 3\<close>\<close>
  "square_rank sq = sq div 8"

definition back_rank_types :: "piece_type list" where
  "back_rank_types = [ROOK, KNIGHT, BISHOP, QUEEN, KING, BISHOP, KNIGHT, ROOK]"

definition Board :: board where
  \<comment> \<open>\<open>chess.Board()\<close>: the standard starting position\<close>
  "Board sq =
     (if sq < 8 then Some \<lparr>piece_type = back_rank_types ! sq, color = WHITE\<rparr>
      else if sq < 16 then Some \<lparr>piece_type = PAWN, color = WHITE\<rparr>
      else if sq < 48 then None
      else if sq < 56 then Some \<lparr>piece_type = PAWN, color = BLACK\<rparr>
      else if sq < 64 then Some \<lparr>piece_type = back_rank_types ! (sq - 56), color = BLACK\<rparr>
      else None)"

definition remove_piece_at :: "board \<Rightarrow> square \<Rightarrow> board" where
  \<comment> \<open>\<open>board.remove_piece_at(square)\<close>: the square becomes empty (it may be already)\<close>
  "remove_piece_at b sq = b(sq := None)"

definition piece_map :: "board \<Rightarrow> square list" where
  \<comment> \<open>the keys of \<open>board.piece_map()\<close>, in the order the library inserts them: the
      occupied squares from 63 down to 0\<close>
  "piece_map b = filter (\<lambda>sq. b sq \<noteq> None) (rev [0..<64])"

definition king_square :: "color \<Rightarrow> square" where
  "king_square c = (if c = WHITE then 4 else 60)"

subsection \<open>Piece values and the positional multiplier\<close>

definition PAWN_TO_ELO :: real where "PAWN_TO_ELO = 100"
definition STD :: real where "STD = 50"
definition BASE_ELO :: real where "BASE_ELO = 3000"
definition MAX_VARIATION :: real where "MAX_VARIATION = 200"
definition AVERAGE_MOVES :: real where "AVERAGE_MOVES = 40"
definition TIME_DOUBLING_ELO :: real where "TIME_DOUBLING_ELO = 200"

fun piece_values :: "piece_type \<rightharpoonup> int" where
  \<comment> \<open>the dictionary \<open>piece_values\<close>; it has no entry for the king\<close>
  "piece_values QUEEN = Some 9"
| "piece_values ROOK = Some 5"
| "piece_values BISHOP = Some 3"
| "piece_values KNIGHT = Some 3"
| "piece_values PAWN = Some 1"
| "piece_values KING = None"

definition get_positional_multiplier :: "square \<Rightarrow> piece_type \<Rightarrow> 'a::linordered_field" where
  "get_positional_multiplier sq pt =
     (let file = square_file sq;
          rank = square_rank sq;
          file = (if rank \<ge> 4 then 7 - file else file)
      in if pt = PAWN \<and> file \<in> set [3, 4, 5] then 1.2
         else if pt = KNIGHT \<and> file = 6 then 1.1
         else if pt = ROOK \<and> file = 7 then 1.2
         else 1.0)"

subsection \<open>The removal candidates (lines 74 to 88)\<close>

definition weighted :: "square \<Rightarrow> piece_type \<Rightarrow> py_error + (square \<times> real)" where
  \<comment> \<open>\<open>(square, piece_values[piece_type] * multiplier)\<close>; the subscript raises on a missing key\<close>
  "weighted sq pt =
     (let multiplier = get_positional_multiplier sq pt
      in case piece_values pt of
           None \<Rightarrow> Inl KeyError
         | Some v \<Rightarrow> Inr (sq, of_int v * multiplier))"

fun collect :: "(py_error + 'a) list \<Rightarrow> py_error + 'a list" where
  \<comment> \<open>appending one by one; the first raise ends the loop\<close>
  "collect [] = Inr []"
| "collect (Inl e # rs) = Inl e"
| "collect (Inr x # rs) = (case collect rs of Inl e \<Rightarrow> Inl e | Inr xs \<Rightarrow> Inr (x # xs))"

definition back_rank_files :: "(nat \<times> piece_type) list" where
  "back_rank_files =
     [(0, ROOK), (1, KNIGHT), (2, BISHOP), (3, QUEEN), (5, BISHOP), (6, KNIGHT), (7, ROOK)]"

definition removable_pieces :: "color \<Rightarrow> py_error + (square \<times> real) list" where
  "removable_pieces bot_color =
     (let back_rank = (if bot_color = WHITE then 0 else 7);
          pawn_rank = (if bot_color = WHITE then 1 else 6)
      in collect
           (map (\<lambda>(file, pt). weighted (square file back_rank) pt) back_rank_files
            @ map (\<lambda>file. weighted (square file pawn_rank) PAWN) [0..<8]))"

text \<open>The positional multiplier as the specification words it, on a file and a rank.\<close>

definition spec_multiplier :: "nat \<Rightarrow> nat \<Rightarrow> piece_type \<Rightarrow> real" where
  "spec_multiplier file rank pt =
     (let nf = (if rank \<ge> 4 then 7 - file else file)
      in if pt = PAWN \<and> (nf = 3 \<or> nf = 4 \<or> nf = 5) then 1.2
         else if pt = KNIGHT \<and> nf = 6 then 1.1
         else if pt = ROOK \<and> nf = 7 then 1.2
         else 1.0)"

fun spec_base_value :: "piece_type \<Rightarrow> real" where
  "spec_base_value QUEEN = 9"
| "spec_base_value ROOK = 5"
| "spec_base_value BISHOP = 3"
| "spec_base_value KNIGHT = 3"
| "spec_base_value PAWN = 1"
| "spec_base_value KING = 0"

definition candidates_weighted :: "color \<Rightarrow> (square \<times> real) list \<Rightarrow> bool" where
  \<comment> \<open>every candidate stands on a square of that side in the starting position and weighs
      the base value of the piece there times the multiplier of the square\<close>
  "candidates_weighted c cands =
     list_all (\<lambda>(sq, v).
        sq < 64 \<and>
        (case Board sq of
           None \<Rightarrow> False
         | Some p \<Rightarrow> color p = c \<and> piece_type p \<noteq> KING \<and>
             v = spec_base_value (piece_type p)
                   * spec_multiplier (square_file sq) (square_rank sq) (piece_type p))) cands"

subsection \<open>The Elo adjustment (lines 47 to 67)\<close>

record tunables =
  pawn_to_elo :: real
  variation_std :: real
  max_variation :: real
  base_elo :: real
  average_moves :: real
  time_doubling_elo :: real

definition default_tunables :: tunables where
  \<comment> \<open>the keyword defaults of \<open>generate_odds_fen\<close>\<close>
  "default_tunables =
     \<lparr>pawn_to_elo = PAWN_TO_ELO, variation_std = STD, max_variation = MAX_VARIATION,
      base_elo = BASE_ELO, average_moves = AVERAGE_MOVES,
      time_doubling_elo = TIME_DOUBLING_ELO\<rparr>"

record draws =
  gauss_z :: real  \<comment> \<open>the standard normal variate that \<open>random.gauss\<close> scales\<close>
  chosen_color :: color  \<comment> \<open>the result of \<open>random.choice([chess.WHITE, chess.BLACK])\<close>\<close>
  shuffle_order :: "nat list"  \<comment> \<open>the order \<open>random.shuffle\<close> leaves the list in\<close>

record elo_stage =
  delta_val :: real
  adjusted_elo_val :: real
  base_time_val :: real
  current_time_val :: real
  time_ratio_val :: real
  time_adjustment_val :: real
  time_adjusted_elo_val :: real

definition py_div :: "real \<Rightarrow> real \<Rightarrow> py_error + real" where
  \<comment> \<open>Python's \<open>/\<close>\<close>
  "py_div a b = (if b = 0 then Inl ZeroDivisionError else Inr (a / b))"

definition math_log :: "real \<Rightarrow> real \<Rightarrow> py_error + real" where
  \<comment> \<open>\<open>math.log(x, base)\<close>: the quotient of the two natural logarithms; a math domain
      error outside the domain of either\<close>
  "math_log x b =
     (if x \<le> 0 \<or> b \<le> 0 then Inl ValueError
      else py_div (ln x) (ln b))"

definition gauss :: "real \<Rightarrow> real \<Rightarrow> real \<Rightarrow> real" where
  \<comment> \<open>\<open>random.gauss(mu, sigma)\<close>, for the standard normal variate \<open>z\<close> it draws\<close>
  "gauss mu sigma z = mu + z * sigma"

definition time_adjusted ::
  "real \<Rightarrow> int \<Rightarrow> real \<Rightarrow> real \<Rightarrow> real \<Rightarrow> tunables \<Rightarrow> py_error + elo_stage" where
  \<comment> \<open>lines 47 to 59\<close>
  "time_adjusted opponent_elo num_games bot_score initial_time increment t =
     (case py_div 400 (of_int num_games + 10) of
        Inl e \<Rightarrow> Inl e
      | Inr q \<Rightarrow>
          let delta = (2 * bot_score - of_int num_games) * q;
              adjusted_elo = opponent_elo - delta;
              base_initial = 180;
              base_increment = 2;
              base_time = base_initial + base_increment * average_moves t;
              current_time = initial_time + increment * average_moves t;
              current_time = max 1 current_time
          in case py_div current_time base_time of
               Inl e \<Rightarrow> Inl e
             | Inr time_ratio \<Rightarrow>
                 (case math_log time_ratio 2 of
                    Inl e \<Rightarrow> Inl e
                  | Inr l \<Rightarrow>
                      let time_adjustment = time_doubling_elo t * l;
                          time_adjusted_elo = adjusted_elo + time_adjustment
                      in Inr \<lparr>delta_val = delta, adjusted_elo_val = adjusted_elo,
                              base_time_val = base_time, current_time_val = current_time,
                              time_ratio_val = time_ratio,
                              time_adjustment_val = time_adjustment,
                              time_adjusted_elo_val = time_adjusted_elo\<rparr>))"

definition handicap_budget ::
  "real \<Rightarrow> int \<Rightarrow> real \<Rightarrow> real \<Rightarrow> real \<Rightarrow> tunables \<Rightarrow> real \<Rightarrow> py_error + real" where
  \<comment> \<open>lines 47 to 67: the value of \<open>S\<close>\<close>
  "handicap_budget opponent_elo num_games bot_score initial_time increment t z =
     (case time_adjusted opponent_elo num_games bot_score initial_time increment t of
        Inl e \<Rightarrow> Inl e
      | Inr st \<Rightarrow>
          let elo_adjustment = gauss 0 (variation_std t) z;
              elo_adjustment = max (- max_variation t) (min (max_variation t) elo_adjustment);
              effective_elo = time_adjusted_elo_val st + elo_adjustment
          in case py_div (base_elo t - effective_elo) (pawn_to_elo t) of
               Inl e \<Rightarrow> Inl e
             | Inr q \<Rightarrow> Inr (max 0 q))"

subsection \<open>The greedy removal (lines 90 to 109)\<close>

record scan_state =
  removed_squares :: "square list"
  current_sum :: real

definition shuffle :: "nat list \<Rightarrow> 'a list \<Rightarrow> 'a list" where
  \<comment> \<open>\<open>random.shuffle\<close> permutes the list in place; \<open>order\<close> names, position by position,
      the old index of the element that ends up there\<close>
  "shuffle order xs = map (\<lambda>i. xs ! i) order"

definition is_order :: "nat \<Rightarrow> nat list \<Rightarrow> bool" where
  \<comment> \<open>\<open>order\<close> is a permutation of the indices of a list of length \<open>n\<close>\<close>
  "is_order n order = (sort order = [0..<n])"

definition initial_scan :: scan_state where
  "initial_scan = \<lparr>removed_squares = [], current_sum = - 0.35\<rparr>"

definition scan_step :: "real \<Rightarrow> square \<times> real \<Rightarrow> scan_state \<Rightarrow> scan_state" where
  \<comment> \<open>the first \<open>if\<close> of the loop body\<close>
  "scan_step S c st =
     (case c of (sq, v) \<Rightarrow>
        if current_sum st + v < S
        then st\<lparr>removed_squares := removed_squares st @ [sq],
                current_sum := current_sum st + v\<rparr>
        else st)"

fun greedy_loop :: "real \<Rightarrow> (square \<times> real) list \<Rightarrow> scan_state \<Rightarrow> scan_state" where
  "greedy_loop S [] st = st"
| "greedy_loop S (c # rest) st =
     (let st' = scan_step S c st
      in if current_sum st' \<ge> S then st' else greedy_loop S rest st')"

fun scan_trace :: "real \<Rightarrow> (square \<times> real) list \<Rightarrow> scan_state \<Rightarrow> scan_state list" where
  \<comment> \<open>the states of the same loop: the one it starts in, then the one after each
      iteration it runs\<close>
  "scan_trace S [] st = [st]"
| "scan_trace S (c # rest) st =
     st # (let st' = scan_step S c st
           in if current_sum st' \<ge> S then [st'] else scan_trace S rest st')"

definition synthesize :: "real \<Rightarrow> draws \<Rightarrow> py_error + (board \<times> color)" where
  \<comment> \<open>lines 69 to 109, for the budget \<open>S\<close> of line 67\<close>
  "synthesize S d =
     (let bot_color = chosen_color d
      in case removable_pieces bot_color of
           Inl e \<Rightarrow> Inl e
         | Inr removable \<Rightarrow>
             let shuffled = shuffle (shuffle_order d) removable;
                 st = greedy_loop S shuffled initial_scan;
                 board = fold (\<lambda>sq b. remove_piece_at b sq) (removed_squares st) Board
             in Inr (board, bot_color))"

definition generate_odds_fen ::
  "real \<Rightarrow> int \<Rightarrow> real \<Rightarrow> real \<Rightarrow> real \<Rightarrow> tunables \<Rightarrow> draws \<Rightarrow> py_error + (board \<times> color)" where
  "generate_odds_fen opponent_elo num_games bot_score initial_time increment t d =
     (case handicap_budget opponent_elo num_games bot_score initial_time increment t (gauss_z d) of
        Inl e \<Rightarrow> Inl e
      | Inr S \<Rightarrow> synthesize S d)"

text \<open>The selection rule as the specification words it: from a running sum, a candidate is
  marked exactly when adding its value stays below the budget, and the scan ends as soon
  as the running sum has reached the budget, marked or not.\<close>

fun spec_marked :: "real \<Rightarrow> real \<Rightarrow> (square \<times> real) list \<Rightarrow> square list" where
  "spec_marked S cur [] = []"
| "spec_marked S cur ((q, v) # rest) =
     (if cur + v < S
      then q # (if cur + v \<ge> S then [] else spec_marked S (cur + v) rest)
      else (if cur \<ge> S then [] else spec_marked S cur rest))"


subsection \<open>The inverse estimator (lines 112 to 125)\<close>

text \<open>\<open>fl\<close> is the rounding applied to the result of every floating-point operation and to
  every decimal literal: the identity for exact arithmetic, \<open>b64\<close> for binary64.\<close>

definition penalty_term :: "('a \<Rightarrow> 'a) \<Rightarrow> color \<Rightarrow> square \<Rightarrow> piece \<Rightarrow> py_error + 'a::linordered_field" where
  \<comment> \<open>\<open>piece_values[piece_type] * multiplier * (1 if piece.color != bot_color else -1)\<close>\<close>
  "penalty_term fl bot_color sq p =
     (let multiplier = fl (get_positional_multiplier sq (piece_type p))
      in case piece_values (piece_type p) of
           None \<Rightarrow> Inl KeyError
         | Some v \<Rightarrow>
             Inr (fl (fl (of_int v * multiplier) * (if color p \<noteq> bot_color then 1 else - 1))))"

fun penalty_loop ::
  "('a \<Rightarrow> 'a) \<Rightarrow> board \<Rightarrow> color \<Rightarrow> square list \<Rightarrow> 'a \<Rightarrow> py_error + 'a::linordered_field" where
  "penalty_loop fl b bot_color [] total_penalty = Inr total_penalty"
| "penalty_loop fl b bot_color (sq # sqs) total_penalty =
     (case b sq of
        None \<Rightarrow> penalty_loop fl b bot_color sqs total_penalty
      | Some p \<Rightarrow>
          if piece_type p = KING then penalty_loop fl b bot_color sqs total_penalty
          else (case penalty_term fl bot_color sq p of
                  Inl e \<Rightarrow> Inl e
                | Inr x \<Rightarrow> penalty_loop fl b bot_color sqs (fl (total_penalty + x))))"

definition get_expected_elo_with ::
  "('a \<Rightarrow> 'a) \<Rightarrow> board \<Rightarrow> color \<Rightarrow> 'a \<Rightarrow> 'a \<Rightarrow> py_error + 'a::linordered_field" where
  "get_expected_elo_with fl b bot_color pawn_to_elo' base_elo' =
     (case penalty_loop fl b bot_color (piece_map b) 0 of
        Inl e \<Rightarrow> Inl e
      | Inr total_penalty \<Rightarrow> Inr (fl (base_elo' - fl (pawn_to_elo' * total_penalty))))"

definition get_expected_elo :: "board \<Rightarrow> color \<Rightarrow> real \<Rightarrow> real \<Rightarrow> py_error + real" where
  \<comment> \<open>in exact arithmetic\<close>
  "get_expected_elo = get_expected_elo_with id"

text \<open>Binary64: a rational is rounded to the nearest number with a significand of 53 bits,
  a tie to the one whose significand is even. The exponent range is not modelled: the
  values of the estimator lie between \<open>2 ^ - 60\<close> and \<open>2 ^ 12\<close> in magnitude, or are zero.\<close>

definition pow2 :: "int \<Rightarrow> rat" where
  "pow2 e = (if 0 \<le> e then 2 ^ nat e else 1 / 2 ^ nat (- e))"

definition binade :: "rat \<Rightarrow> int" where
  \<comment> \<open>the \<open>e\<close> with \<open>2 ^ e \<le> \<bar>x\<bar> < 2 ^ (e + 1)\<close>, for \<open>x \<noteq> 0\<close>\<close>
  "binade x =
     (let (p, q) = quotient_of \<bar>x\<bar>;
          e = bitlen p - bitlen q
      in if \<bar>x\<bar> < pow2 e then e - 1 else e)"

definition b64 :: "rat \<Rightarrow> rat" where
  "b64 x =
     (if x = 0 then 0
      else let u = pow2 (binade x - 52);
               m = x / u;
               n = \<lfloor>m\<rfloor>;
               r = m - of_int n;
               n' = (if r < 1 / 2 then n
                     else if 1 / 2 < r then n + 1
                     else if even n then n else n + 1)
           in of_int n' * u)"

definition get_expected_elo_b64 :: "board \<Rightarrow> color \<Rightarrow> rat \<Rightarrow> rat \<Rightarrow> py_error + rat" where
  \<comment> \<open>as the interpreter computes it\<close>
  "get_expected_elo_b64 = get_expected_elo_with b64"

subsection \<open>A concrete run\<close>

definition example_order :: "nat list" where
  "example_order = [14, 3, 0, 7, 11, 1, 9, 5, 2, 13, 6, 10, 4, 12, 8]"

definition example_draws :: "color \<Rightarrow> draws" where
  "example_draws c = \<lparr>gauss_z = 0, chosen_color = c, shuffle_order = example_order\<rparr>"

definition white_shuffled :: "(square \<times> real) list" where
  \<comment> \<open>the candidates of White in \<open>example_order\<close>\<close>
  "white_shuffled =
     [(15, 1), (3, 9), (0, 5), (8, 1), (12, 1.2), (1, 3), (10, 1), (6, 3.3), (2, 3),
      (14, 1), (7, 6), (11, 1.2), (5, 3), (13, 1.2), (9, 1)]"

definition black_shuffled :: "(square \<times> real) list" where
  \<comment> \<open>the candidates of Black in \<open>example_order\<close>\<close>
  "black_shuffled =
     [(55, 1), (59, 9), (56, 6), (48, 1), (52, 1.2), (57, 3.3), (50, 1.2), (62, 3), (58, 3),
      (54, 1), (63, 5), (51, 1.2), (61, 3), (53, 1), (49, 1)]"

definition without :: "square list \<Rightarrow> board" where
  \<comment> \<open>the starting position with the pieces on these squares removed\<close>
  "without rs = fold (\<lambda>sq b. remove_piece_at b sq) rs Board"

section \<open>Theorems\<close>

subsection \<open>Squares and candidates\<close>

lemma square_file_square: "f < 8 \<Longrightarrow> square_file (square f r) = f"
  by (simp add: square_def square_file_def)

lemma square_rank_square: "f < 8 \<Longrightarrow> square_rank (square f r) = r"
  by (simp add: square_def square_rank_def)

lemma multiplier_spec:
  "f < 8 \<Longrightarrow> (get_positional_multiplier (square f r) pt :: real) = spec_multiplier f r pt"
  by (simp add: get_positional_multiplier_def spec_multiplier_def square_file_square
      square_rank_square Let_def)

lemma removable_pieces_WHITE:
  "removable_pieces WHITE =
     Inr [(0, 5), (1, 3), (2, 3), (3, 9), (5, 3), (6, 3.3), (7, 6),
          (8, 1), (9, 1), (10, 1), (11, 1.2), (12, 1.2), (13, 1.2), (14, 1), (15, 1)]"
  by (simp add: removable_pieces_def back_rank_files_def weighted_def square_def
      get_positional_multiplier_def square_file_def square_rank_def upt_rec)

lemma removable_pieces_BLACK:
  "removable_pieces BLACK =
     Inr [(56, 6), (57, 3.3), (58, 3), (59, 9), (61, 3), (62, 3), (63, 5),
          (48, 1), (49, 1), (50, 1.2), (51, 1.2), (52, 1.2), (53, 1), (54, 1), (55, 1)]"
  by (simp add: removable_pieces_def back_rank_files_def weighted_def square_def
      get_positional_multiplier_def square_file_def square_rank_def upt_rec)

lemma removable_weighted:
  "\<exists>cands. removable_pieces c = Inr cands \<and> length cands = 15 \<and> candidates_weighted c cands"
  by (cases c)
    (simp_all add: removable_pieces_WHITE removable_pieces_BLACK candidates_weighted_def
      Board_def back_rank_types_def spec_multiplier_def square_file_def square_rank_def)

lemma piece_values_spec:
  "pt \<noteq> KING \<Longrightarrow> map_option of_int (piece_values pt) = Some (spec_base_value pt)"
  by (cases pt) simp_all

lemma removable_all:
  "removable_pieces c = Inr removable \<Longrightarrow>
     length removable = 15 \<and> distinct (map fst removable)
     \<and> (\<forall>x \<in> set removable. 1 \<le> snd x) \<and> candidates_weighted c removable"
  by (cases c)
    (auto simp: removable_pieces_WHITE removable_pieces_BLACK candidates_weighted_def
      Board_def back_rank_types_def spec_multiplier_def square_file_def square_rank_def)

lemma removable_facts:
  assumes "removable_pieces c = Inr removable"
  shows "length removable = 15" and "distinct (map fst removable)"
    and "\<forall>x \<in> set removable. 1 \<le> snd x"
    and "candidates_weighted c removable"
  using removable_all [OF assms] by blast+

lemma removable_total: "\<exists>removable. removable_pieces c = Inr removable"
  by (cases c) (simp_all add: removable_pieces_WHITE removable_pieces_BLACK)

text \<open>
  C6. On every square of the board and for every piece type, the positional multiplier is the
  one the specification describes: the file is mirrored when the rank is at least 4, then
  1.2 for a pawn on files 3 to 5, 1.1 for a knight on file 6, 1.2 for a rook on file 7 and
  1.0 otherwise. The base values are 9, 5, 3, 3 and 1, and each of the fifteen candidates
  of either side weighs the base value of the piece on its square times that multiplier.
\<close>

theorem positional_multiplier_and_weights:
  "(f \<le> 7 \<and> r \<le> 7 \<longrightarrow>
      (get_positional_multiplier (square f r) pt :: real) = spec_multiplier f r pt)
   \<and> (pt \<noteq> KING \<longrightarrow> map_option of_int (piece_values pt) = Some (spec_base_value pt))
   \<and> (\<exists>cands. removable_pieces c = Inr cands \<and> length cands = 15 \<and> candidates_weighted c cands)"
  using removable_weighted [of c] piece_values_spec [of pt] multiplier_spec [of f r pt]
  by auto

theorem positional_multiplier_and_weights_witness:
  "(3::nat) \<le> 7 \<and> (6::nat) \<le> 7
   \<and> (get_positional_multiplier (square 3 6) PAWN :: real) = 1.2
   \<and> PAWN \<noteq> KING
   \<and> map_option of_int (piece_values PAWN) = Some (1::real)
   \<and> (\<exists>cands. removable_pieces BLACK = Inr cands \<and> length cands = 15
         \<and> candidates_weighted BLACK cands)"
  using positional_multiplier_and_weights [of 3 6 PAWN BLACK]
  by (simp add: spec_multiplier_def)

subsection \<open>The Elo adjustment\<close>

lemma ratio_nonpos: "0 < c \<Longrightarrow> (c / b \<le> 0) = (b \<le> (0::real))"
  by (auto simp: divide_le_0_iff)

lemma time_adjusted_Inr:
  "time_adjusted oe n bs it inc t = Inr st \<longleftrightarrow>
     of_int n + (10::real) \<noteq> 0 \<and> 0 < 180 + 2 * average_moves t \<and>
     st = \<lparr>delta_val = (2 * bs - of_int n) * (400 / (of_int n + 10)),
           adjusted_elo_val = oe - (2 * bs - of_int n) * (400 / (of_int n + 10)),
           base_time_val = 180 + 2 * average_moves t,
           current_time_val = max 1 (it + inc * average_moves t),
           time_ratio_val = max 1 (it + inc * average_moves t) / (180 + 2 * average_moves t),
           time_adjustment_val = time_doubling_elo t *
              (ln (max 1 (it + inc * average_moves t) / (180 + 2 * average_moves t)) / ln 2),
           time_adjusted_elo_val = oe - (2 * bs - of_int n) * (400 / (of_int n + 10)) +
              time_doubling_elo t *
              (ln (max 1 (it + inc * average_moves t) / (180 + 2 * average_moves t)) / ln 2)\<rparr>"
proof -
  have ct: "0 < max 1 (it + inc * average_moves t)" by simp
  have r: "max 1 (it + inc * average_moves t) / (180 + 2 * average_moves t) \<le> 0
      \<longleftrightarrow> 180 + 2 * average_moves t \<le> 0"
    using ct ratio_nonpos by blast
  show ?thesis
    unfolding time_adjusted_def py_div_def math_log_def Let_def
    using r by (auto split: sum.splits if_splits)
qed


lemma handicap_budget_Inr:
  "handicap_budget oe n bs it inc t z = Inr S \<longleftrightarrow>
     (\<exists>st. time_adjusted oe n bs it inc t = Inr st \<and> pawn_to_elo t \<noteq> 0 \<and>
        S = max 0 ((base_elo t - (time_adjusted_elo_val st +
              max (- max_variation t) (min (max_variation t) (gauss 0 (variation_std t) z))))
            / pawn_to_elo t))"
  unfolding handicap_budget_def py_div_def Let_def
  by (auto split: sum.splits if_splits)


lemmas defaults =
  default_tunables_def PAWN_TO_ELO_def STD_def BASE_ELO_def MAX_VARIATION_def
  AVERAGE_MOVES_def TIME_DOUBLING_ELO_def

lemma example_stage:
  "time_adjusted 2000 10 8 60 1 default_tunables =
     Inr \<lparr>delta_val = 120, adjusted_elo_val = 1880, base_time_val = 260, current_time_val = 100,
          time_ratio_val = 5 / 13, time_adjustment_val = 200 * (ln (5 / 13) / ln 2),
          time_adjusted_elo_val = 1880 + 200 * (ln (5 / 13) / ln 2)\<rparr>"
  by (simp add: time_adjusted_Inr defaults)

text \<open>
  C2. Whenever lines 47 to 59 return (they do unless a division or the logarithm is
  undefined), the values are those of the specification's formulas:
  \<open>delta = (2 * score - games) * 400 / (games + 10)\<close>, \<open>adjusted = opponent - delta\<close>,
  \<open>base_time = 180 + 2 * average_moves\<close>,
  \<open>current_time = max 1 (initial + increment * average_moves)\<close> and
  \<open>time_adjustment = time_doubling_elo * log2 (current_time / base_time)\<close>. For the
  opponent rated 2000 with a score of 8 in 10 games at 60 seconds plus 1 and the default
  tunables they are 120, 1880, 260 and 100.
\<close>

theorem elo_adjustment_formulas:
  "(of_int n + (10::real) \<noteq> 0 \<and> 0 < 180 + 2 * average_moves t
      \<longrightarrow> (\<exists>st. time_adjusted oe n bs it inc t = Inr st))
   \<and> (time_adjusted oe n bs it inc t = Inr st \<longrightarrow>
        delta_val st = (2 * bs - of_int n) * 400 / (of_int n + 10)
        \<and> adjusted_elo_val st = oe - delta_val st
        \<and> base_time_val st = 180 + 2 * average_moves t
        \<and> current_time_val st = max 1 (it + inc * average_moves t)
        \<and> time_adjustment_val st
            = time_doubling_elo t * log 2 (current_time_val st / base_time_val st))
   \<and> map_sum id (\<lambda>st. (delta_val st, adjusted_elo_val st, base_time_val st, current_time_val st))
        (time_adjusted 2000 10 8 60 1 default_tunables) = Inr (120, 1880, 260, 100)"
  by (auto simp: time_adjusted_Inr example_stage log_def)

theorem elo_adjustment_formulas_witness:
  "of_int 10 + (10::real) \<noteq> 0 \<and> (0::real) < 180 + 2 * average_moves default_tunables
   \<and> (\<exists>st. time_adjusted 2000 10 8 60 1 default_tunables = Inr st
         \<and> delta_val st = 120 \<and> adjusted_elo_val st = 1880 \<and> base_time_val st = 260
         \<and> current_time_val st = 100 \<and> time_adjustment_val st = 200 * log 2 (100 / 260))"
proof -
  let ?st = "\<lparr>delta_val = 120, adjusted_elo_val = 1880, base_time_val = 260,
      current_time_val = 100, time_ratio_val = 5 / 13,
      time_adjustment_val = 200 * (ln (5 / 13) / ln 2),
      time_adjusted_elo_val = 1880 + 200 * (ln (5 / 13) / ln 2)\<rparr>"
  have h: "of_int 10 + (10::real) \<noteq> 0 \<and> (0::real) < 180 + 2 * average_moves default_tunables"
    by (simp add: defaults)
  from elo_adjustment_formulas [where n = 10 and t = default_tunables and oe = 2000 and bs = 8
      and it = 60 and inc = 1 and st = ?st] example_stage
  have "time_adjustment_val ?st = time_doubling_elo default_tunables
          * log 2 (current_time_val ?st / base_time_val ?st)"
    by blast
  then have "time_adjustment_val ?st = 200 * log 2 (100 / 260)"
    by (simp add: defaults)
  then show ?thesis using h example_stage by simp
qed

lemma budget_score_5: "handicap_budget 2000 10 5 180 2 default_tunables 0 = Inr 10"
  by (simp add: handicap_budget_def time_adjusted_def py_div_def math_log_def gauss_def defaults)


text \<open>
  C3. Whenever the budget is computed it is non-negative, whatever the rating, the history,
  the time control, the tunables and the Gaussian draw; and it is computed whenever the
  three divisions and the logarithm are defined.
\<close>

theorem handicap_budget_nonneg:
  "(of_int n + (10::real) \<noteq> 0 \<and> 0 < 180 + 2 * average_moves t \<and> pawn_to_elo t \<noteq> 0
      \<longrightarrow> (\<exists>S. handicap_budget oe n bs it inc t z = Inr S))
   \<and> (handicap_budget oe n bs it inc t z = Inr S \<longrightarrow> 0 \<le> S)"
  by (auto simp: handicap_budget_Inr time_adjusted_Inr)

theorem handicap_budget_nonneg_witness:
  "of_int 10 + (10::real) \<noteq> 0 \<and> (0::real) < 180 + 2 * average_moves default_tunables
   \<and> pawn_to_elo default_tunables \<noteq> 0
   \<and> handicap_budget 2000 10 5 180 2 default_tunables 0 = Inr 10 \<and> (0::real) \<le> 10"
  using handicap_budget_nonneg [where n = 10 and t = default_tunables and oe = 2000 and bs = 5
      and it = 180 and inc = 2 and z = 0 and S = 10]
    budget_score_5
  by (simp add: defaults)





subsection \<open>The greedy removal\<close>

lemma initial_scan_simps:
  "removed_squares initial_scan = []" "current_sum initial_scan = - 0.35"
  by (simp_all add: initial_scan_def)

lemma greedy_loop_marked:
  "removed_squares (greedy_loop S cands st)
     = removed_squares st @ spec_marked S (current_sum st) cands"
proof (induction cands arbitrary: st)
  case Nil
  show ?case by simp
next
  case (Cons c rest)
  obtain sq v where c: "c = (sq, v)" by (cases c)
  show ?case
    by (simp add: c scan_step_def Let_def Cons.IH)
qed




lemma spec_marked_subset: "set (spec_marked S cur cands) \<subseteq> fst ` set cands"
  by (induction S cur cands rule: spec_marked.induct) auto




lemma greedy_loop_idle:
  "\<forall>c \<in> set cands. \<not> current_sum st + snd c < S \<Longrightarrow> current_sum st < S \<Longrightarrow>
     greedy_loop S cands st = st"
proof (induction cands)
  case Nil
  show ?case by simp
next
  case (Cons c rest)
  have "scan_step S c st = st"
    using Cons.prems(1) by (cases c) (simp add: scan_step_def)
  then show ?case using Cons by (simp add: Let_def)
qed

lemma is_order_mset: "is_order n order \<Longrightarrow> mset order = mset [0..<n]"
  unfolding is_order_def by (metis mset_sort)

lemma shuffle_mset:
  assumes "is_order (length xs) order"
  shows "mset (shuffle order xs) = mset xs"
proof -
  have "mset (shuffle order xs) = image_mset (\<lambda>i. xs ! i) (mset order)"
    by (simp add: shuffle_def)
  also have "\<dots> = image_mset (\<lambda>i. xs ! i) (mset [0..<length xs])"
    using is_order_mset [OF assms] by simp
  also have "\<dots> = mset (map (\<lambda>i. xs ! i) [0..<length xs])"
    by simp
  also have "\<dots> = mset xs"
    by (simp add: map_nth)
  finally show ?thesis .
qed

lemma shuffle_set: "is_order (length xs) order \<Longrightarrow> set (shuffle order xs) = set xs"
  by (metis shuffle_mset set_mset_mset)



lemma synthesize_eq:
  "removable_pieces (chosen_color d) = Inr removable \<Longrightarrow>
   synthesize S d =
     Inr (fold (\<lambda>sq b. remove_piece_at b sq)
            (spec_marked S (- 0.35) (shuffle (shuffle_order d) removable)) Board,
          chosen_color d)"
  by (simp add: synthesize_def Let_def greedy_loop_marked initial_scan_simps)


lemma select_zero:
  assumes "is_order 15 order" and "removable_pieces c = Inr removable"
  shows "greedy_loop 0 (shuffle order removable) initial_scan = initial_scan"
proof (rule greedy_loop_idle)
  have "set (shuffle order removable) = set removable"
    using assms removable_facts(1) shuffle_set by metis
  then have "\<forall>x \<in> set (shuffle order removable). 1 \<le> snd x"
    using removable_facts(3) [OF assms(2)] by simp
  then show "\<forall>c \<in> set (shuffle order removable). \<not> current_sum initial_scan + snd c < 0"
    by (fastforce simp: initial_scan_simps)
  show "current_sum initial_scan < 0" by (simp add: initial_scan_simps)
qed

lemma example_order_ok: "is_order 15 example_order"
  by (simp add: is_order_def example_order_def upt_rec)

lemma shuffled_WHITE:
  "removable_pieces WHITE = Inr rs \<Longrightarrow> shuffle example_order rs = white_shuffled"
  by (auto simp add: removable_pieces_WHITE shuffle_def example_order_def white_shuffled_def)

lemma shuffled_BLACK:
  "removable_pieces BLACK = Inr rs \<Longrightarrow> shuffle example_order rs = black_shuffled"
  by (auto simp add: removable_pieces_BLACK shuffle_def example_order_def black_shuffled_def)

lemma synthesize_example:
  "synthesize S (example_draws WHITE) = Inr (without (spec_marked S (- 0.35) white_shuffled), WHITE)"
  "synthesize S (example_draws BLACK) = Inr (without (spec_marked S (- 0.35) black_shuffled), BLACK)"
  using synthesize_eq [of "example_draws WHITE" _ S] synthesize_eq [of "example_draws BLACK" _ S]
  by (simp_all add: example_draws_def removable_pieces_WHITE removable_pieces_BLACK without_def
      shuffled_WHITE shuffled_BLACK)



lemma white_trace_6: "length (scan_trace 6 white_shuffled initial_scan) = 16"
  by (simp add: white_shuffled_def initial_scan_def scan_step_def Let_def)






lemma budget_zero: "handicap_budget 3500 0 0 180 2 default_tunables 0 = Inr 0"
  by (simp add: handicap_budget_def time_adjusted_def py_div_def math_log_def gauss_def defaults)

text \<open>
  C7. With a budget of zero no square is marked, in whatever order the candidates are
  scanned, and the position returned is the standard starting position together with the
  side that was drawn.
\<close>

theorem zero_budget_removes_nothing:
  assumes "is_order 15 (shuffle_order d)"
  shows "(removable_pieces (chosen_color d) = Inr removable \<longrightarrow>
            removed_squares (greedy_loop 0 (shuffle (shuffle_order d) removable) initial_scan) = [])
     \<and> synthesize 0 d = Inr (Board, chosen_color d)
     \<and> (handicap_budget oe n bs it inc t (gauss_z d) = Inr 0 \<longrightarrow>
          generate_odds_fen oe n bs it inc t d = Inr (Board, chosen_color d))"
proof -
  obtain rs where rs: "removable_pieces (chosen_color d) = Inr rs"
    using removable_total by blast
  have z: "greedy_loop 0 (shuffle (shuffle_order d) rs) initial_scan = initial_scan"
    using assms rs by (rule select_zero)
  have s: "synthesize 0 d = Inr (Board, chosen_color d)"
    by (simp add: synthesize_def rs z Let_def initial_scan_simps)
  show ?thesis
    using s z rs by (auto simp: generate_odds_fen_def initial_scan_simps)
qed

theorem zero_budget_removes_nothing_witness:
  "is_order 15 (shuffle_order (example_draws BLACK))
   \<and> handicap_budget 3500 0 0 180 2 default_tunables (gauss_z (example_draws BLACK)) = Inr 0
   \<and> removed_squares (greedy_loop 0 black_shuffled initial_scan) = []
   \<and> synthesize 0 (example_draws BLACK) = Inr (Board, BLACK)
   \<and> generate_odds_fen 3500 0 0 180 2 default_tunables (example_draws BLACK) = Inr (Board, BLACK)"
proof -
  have o: "is_order 15 (shuffle_order (example_draws BLACK))"
    by (simp add: example_draws_def example_order_ok)
  have b: "handicap_budget 3500 0 0 180 2 default_tunables (gauss_z (example_draws BLACK)) = Inr 0"
    by (simp add: example_draws_def budget_zero)
  obtain rs where rs: "removable_pieces (chosen_color (example_draws BLACK)) = Inr rs"
    using removable_total by blast
  then have sh: "shuffle (shuffle_order (example_draws BLACK)) rs = black_shuffled"
    by (simp add: example_draws_def shuffled_BLACK)
  show ?thesis
    using zero_budget_removes_nothing [OF o, of rs 3500 0 0 180 2 default_tunables] o b rs sh
    by (simp add: example_draws_def)
qed

subsection \<open>The position that is returned\<close>

lemma fold_remove:
  "fold (\<lambda>sq b. remove_piece_at b sq) rs b0 sq = (if sq \<in> set rs then None else b0 sq)"
  by (induction rs arbitrary: b0) (auto simp: remove_piece_at_def)

lemma Board_king: "Board (king_square c) = Some \<lparr>piece_type = KING, color = c\<rparr>"
  by (cases c) (simp_all add: Board_def king_square_def back_rank_types_def)

lemma candidate_piece:
  assumes "candidates_weighted c cands" and "sq \<in> fst ` set cands"
  shows "\<exists>p. Board sq = Some p \<and> color p = c \<and> piece_type p \<noteq> KING"
proof -
  from assms(2) obtain v where "(sq, v) \<in> set cands" by auto
  with assms(1) show ?thesis
    by (auto simp: candidates_weighted_def list_all_iff split: option.splits)
qed

lemma synthesize_board:
  assumes o: "is_order 15 (shuffle_order d)" and s: "synthesize S d = Inr (b, c)"
  shows "c = chosen_color d"
    and "b (king_square c) = Some \<lparr>piece_type = KING, color = c\<rparr>"
    and "\<forall>sq. b sq = Board sq \<or>
            (b sq = None \<and> (\<exists>p. Board sq = Some p \<and> color p = c \<and> piece_type p \<noteq> KING))"
    and "card {sq. b sq \<noteq> Board sq} \<le> 15"
proof -
  obtain rs where rs: "removable_pieces (chosen_color d) = Inr rs"
    using removable_total by blast
  let ?cands = "shuffle (shuffle_order d) rs"
  let ?R = "spec_marked S (- 0.35) ?cands"
  have len: "length rs = 15" using rs by (rule removable_facts(1))
  from s have c: "c = chosen_color d" and b: "b = fold (\<lambda>sq b. remove_piece_at b sq) ?R Board"
    by (simp_all add: synthesize_eq [OF rs])
  show "c = chosen_color d" by (rule c)
  have set: "set ?cands = set rs"
    using o len by (simp add: shuffle_set)
  have R: "set ?R \<subseteq> fst ` set rs"
    using spec_marked_subset [of S "- 0.35" ?cands] set by simp
  have cw: "candidates_weighted c rs"
    using rs c by (simp add: removable_facts(4))
  have piece: "\<exists>p. Board sq = Some p \<and> color p = c \<and> piece_type p \<noteq> KING" if "sq \<in> set ?R" for sq
    using candidate_piece [OF cw] R that by blast
  have "king_square c \<notin> set ?R"
    using piece [of "king_square c"] by (auto simp: Board_king)
  then show "b (king_square c) = Some \<lparr>piece_type = KING, color = c\<rparr>"
    by (simp add: b fold_remove Board_king)
  show "\<forall>sq. b sq = Board sq \<or>
            (b sq = None \<and> (\<exists>p. Board sq = Some p \<and> color p = c \<and> piece_type p \<noteq> KING))"
    using piece by (simp add: b fold_remove)
  have "{sq. b sq \<noteq> Board sq} \<subseteq> fst ` set rs"
    using R by (auto simp: b fold_remove split: if_splits)
  then have "card {sq. b sq \<noteq> Board sq} \<le> card (fst ` set rs)"
    by (simp add: card_mono)
  also have "\<dots> \<le> length rs"
    by (metis card_image_le card_length le_trans List.finite_set)
  finally show "card {sq. b sq \<noteq> Board sq} \<le> 15" using len by simp
qed

lemma black_marked_10: "spec_marked 10 (- 0.35) black_shuffled = [55, 59]"
  by (simp add: black_shuffled_def)

lemma generate_example_black:
  "generate_odds_fen 2000 10 5 180 2 default_tunables (example_draws BLACK)
     = Inr (without [55, 59], BLACK)"
  using budget_score_5 black_marked_10
  by (simp add: generate_odds_fen_def example_draws_def
      synthesize_example [unfolded example_draws_def])

text \<open>
  C9. On every position the generator returns, the king of the handicapped side is on its
  square, every square either holds what the starting position holds or is an emptied
  square of a non-king piece of the handicapped side, at most fifteen squares differ from
  the starting position, and every piece of the other side is where it was.
\<close>

theorem synthesizer_frame:
  assumes "is_order 15 (shuffle_order d)"
    and "generate_odds_fen oe n bs it inc t d = Inr (b, c)"
  shows "c = chosen_color d
     \<and> b (king_square c) = Some \<lparr>piece_type = KING, color = c\<rparr>
     \<and> (\<forall>sq. b sq = Board sq \<or>
            (b sq = None \<and> (\<exists>p. Board sq = Some p \<and> color p = c \<and> piece_type p \<noteq> KING)))
     \<and> card {sq. b sq \<noteq> Board sq} \<le> 15
     \<and> (\<forall>sq p. Board sq = Some p \<and> color p \<noteq> c \<longrightarrow> b sq = Some p)"
proof -
  from assms(2) obtain S where s: "synthesize S d = Inr (b, c)"
    by (auto simp: generate_odds_fen_def split: sum.splits)
  note f = synthesize_board [OF assms(1) s]
  have "\<forall>sq p. Board sq = Some p \<and> color p \<noteq> c \<longrightarrow> b sq = Some p"
    using f(3) by (metis option.inject)
  then show ?thesis using f by blast
qed

theorem synthesizer_frame_witness:
  "is_order 15 (shuffle_order (example_draws BLACK))
   \<and> generate_odds_fen 2000 10 5 180 2 default_tunables (example_draws BLACK)
       = Inr (without [55, 59], BLACK)
   \<and> without [55, 59] (king_square BLACK) = Some \<lparr>piece_type = KING, color = BLACK\<rparr>
   \<and> card {sq. without [55, 59] sq \<noteq> Board sq} \<le> 15
   \<and> without [55, 59] 59 = None"
proof -
  have o: "is_order 15 (shuffle_order (example_draws BLACK))"
    by (simp add: example_draws_def example_order_ok)
  have q: "without [55, 59] 59 = None"
    by (simp add: without_def remove_piece_at_def)
  show ?thesis
    using synthesizer_frame [OF o generate_example_black] o generate_example_black q
    by blast
qed

subsection \<open>Failures of the entry point\<close>







subsection \<open>The inverse estimator on the starting position\<close>

lemma piece_map_Board:
  "piece_map Board =
     [63, 62, 61, 60, 59, 58, 57, 56, 55, 54, 53, 52, 51, 50, 49, 48,
      15, 14, 13, 12, 11, 10, 9, 8, 7, 6, 5, 4, 3, 2, 1, 0]"
  by (simp add: piece_map_def Board_def upt_rec)

lemma exact_penalty: "penalty_loop id Board c (piece_map Board) (0::real) = Inr 0"
  by (cases c)
    (simp_all add: piece_map_Board penalty_term_def Board_def
      back_rank_types_def get_positional_multiplier_def square_file_def square_rank_def)

lemma exact_estimate: "get_expected_elo Board c p b = Inr b"
  by (simp add: get_expected_elo_def get_expected_elo_with_def exact_penalty)

text \<open>The rounding is what it is meant to be: \<open>binade\<close> brackets the magnitude of its argument
  between two consecutive powers of two, and \<open>b64\<close> moves its argument by at most half a unit
  in the last place of that binade. The three values below are those the interpreter
  prints for \<open>1.0\<close>, \<open>1.2\<close> and \<open>3 * 1.1\<close>.\<close>

lemma pow2_powi: "pow2 e = 2 powi e"
  by (simp add: pow2_def power_int_def inverse_eq_divide power_one_over)

lemma pow2_pos: "0 < pow2 e"
  by (simp add: pow2_powi)

lemma pow2_add: "pow2 (i + j) = pow2 i * pow2 j"
  by (simp add: pow2_powi power_int_add)

lemma pow2_nat: "0 \<le> e \<Longrightarrow> pow2 e = 2 ^ nat e"
  by (simp add: pow2_def)

lemma int_bounds:
  assumes "0 < (k::int)"
  shows "(2::rat) ^ nat (bitlen k - 1) \<le> of_int k" and "of_int k < (2::rat) ^ nat (bitlen k)"
proof -
  have "of_int (2 ^ nat (bitlen k - 1)) \<le> (of_int k :: rat)"
    using bitlen_bounds [OF assms] by (simp only: of_int_le_iff)
  then show "(2::rat) ^ nat (bitlen k - 1) \<le> of_int k" by simp
  have "(of_int k :: rat) < of_int (2 ^ nat (bitlen k))"
    using bitlen_bounds [OF assms] by (simp only: of_int_less_iff)
  then show "of_int k < (2::rat) ^ nat (bitlen k)" by simp
qed

lemma binade_bounds:
  assumes "x \<noteq> 0"
  shows "pow2 (binade x) \<le> \<bar>x\<bar> \<and> \<bar>x\<bar> < pow2 (binade x + 1)"
proof -
  obtain p q where pq: "quotient_of \<bar>x\<bar> = (p, q)" by (cases "quotient_of \<bar>x\<bar>")
  have q: "0 < q" using pq by (rule quotient_of_denom_pos)
  have x: "\<bar>x\<bar> = of_int p / of_int q" using pq by (rule quotient_of_div)
  have "0 < \<bar>x\<bar>" using assms by simp
  then have p: "0 < p" using x q by (simp add: zero_less_divide_iff)
  let ?bp = "bitlen p" and ?bq = "bitlen q"
  let ?e = "?bp - ?bq"
  have bp: "1 \<le> ?bp" using p by (auto simp: bitlen_alt_def)
  have bq: "1 \<le> ?bq" using q by (auto simp: bitlen_alt_def)
  have P: "pow2 (?bp - 1) \<le> of_int p" "of_int p < pow2 ?bp"
    using bp int_bounds [OF p] by (simp_all add: pow2_nat)
  have Q: "pow2 (?bq - 1) \<le> of_int q" "of_int q < pow2 ?bq"
    using bq int_bounds [OF q] by (simp_all add: pow2_nat)
  have qpos: "(0::rat) < of_int q" using q by simp
  have lo: "pow2 (?e - 1) < \<bar>x\<bar>"
  proof -
    have "pow2 (?e - 1) * of_int q < pow2 (?e - 1) * pow2 ?bq"
      using Q(2) pow2_pos by (simp add: mult_strict_left_mono)
    also have "\<dots> = pow2 (?bp - 1)"
      by (simp flip: pow2_add)
    also have "\<dots> \<le> of_int p" by (rule P(1))
    finally show ?thesis using qpos by (simp add: x pos_less_divide_eq)
  qed
  have hi: "\<bar>x\<bar> < pow2 (?e + 1)"
  proof -
    have "of_int p < pow2 ?bp" by (rule P(2))
    also have "\<dots> = pow2 (?e + 1) * pow2 (?bq - 1)"
      by (simp flip: pow2_add)
    also have "\<dots> \<le> pow2 (?e + 1) * of_int q"
      using Q(1) pow2_pos by (simp add: mult_left_mono less_imp_le)
    finally show ?thesis using qpos by (simp add: x pos_divide_less_eq)
  qed
  have b: "binade x = (if \<bar>x\<bar> < pow2 ?e then ?e - 1 else ?e)"
    by (simp add: binade_def pq Let_def)
  show ?thesis
  proof (cases "\<bar>x\<bar> < pow2 ?e")
    case True
    then show ?thesis using lo b by simp
  next
    case False
    then show ?thesis using hi b by simp
  qed
qed

lemma nearest_even:
  fixes m :: rat
  defines "n \<equiv> \<lfloor>m\<rfloor>"
  defines "r \<equiv> m - of_int n"
  defines "n' \<equiv> (if r < 1 / 2 then n else if 1 / 2 < r then n + 1
                   else if even n then n else n + 1)"
  shows "\<bar>of_int n' - m\<bar> \<le> 1 / 2"
proof -
  have r: "0 \<le> r" "r < 1" unfolding r_def n_def by linarith+
  have m: "m = of_int n + r" unfolding r_def by simp
  consider "r < 1 / 2" | "1 / 2 < r" | "r = 1 / 2" by linarith
  then show ?thesis
  proof cases
    case 1
    then have "n' = n" by (simp add: n'_def)
    then show ?thesis using r 1 by (simp add: m)
  next
    case 2
    then have "n' = n + 1" by (simp add: n'_def)
    then show ?thesis using r 2 by (simp add: m)
  next
    case 3
    then have "n' = n \<or> n' = n + 1" by (simp add: n'_def)
    then show ?thesis using 3 by (auto simp: m)
  qed
qed

lemma b64_error:
  assumes "x \<noteq> 0"
  shows "\<bar>b64 x - x\<bar> \<le> pow2 (binade x - 53)"
proof -
  let ?u = "pow2 (binade x - 52)"
  let ?m = "x / ?u"
  let ?n = "\<lfloor>?m\<rfloor>"
  let ?r = "?m - of_int ?n"
  let ?n' = "if ?r < 1 / 2 then ?n else if 1 / 2 < ?r then ?n + 1
             else if even ?n then ?n else ?n + 1"
  have u: "0 < ?u" by (rule pow2_pos)
  have d: "\<bar>of_int ?n' - ?m\<bar> \<le> 1 / 2"
    by (rule nearest_even)
  have "b64 x = of_int ?n' * ?u"
    using assms by (simp add: b64_def Let_def)
  moreover have "x = ?m * ?u" using u by simp
  ultimately have "b64 x - x = (of_int ?n' - ?m) * ?u"
    by (metis left_diff_distrib)
  then have "\<bar>b64 x - x\<bar> = \<bar>of_int ?n' - ?m\<bar> * ?u"
    using u by (simp only: abs_mult abs_of_pos)
  also have "\<dots> \<le> 1 / 2 * ?u"
    using d u by (intro mult_right_mono) simp_all
  also have "\<dots> = pow2 (binade x - 53)"
    using pow2_add [of "binade x - 53" 1] by (simp add: pow2_def)
  finally show ?thesis .
qed

lemma b64_literals:
  "b64 1 = 1"
  "b64 1.2 = 5404319552844595 / 2 ^ 52"
  "b64 (3 * b64 1.1) = 7430939385161319 / 2 ^ 51"
  by code_simp+

lemma penalty_b64_WHITE:
  "penalty_loop b64 Board WHITE (piece_map Board) 0 = Inr (- (1 / 2 ^ 48))"
  by code_simp

lemma penalty_b64_BLACK:
  "penalty_loop b64 Board BLACK (piece_map Board) 0 = Inr (1 / 2 ^ 48)"
  by code_simp

lemma b64_final_WHITE: "b64 (3000 - b64 (100 * (- (1 / 2 ^ 48)))) = 3000 + 1 / 2 ^ 41"
  by code_simp

lemma b64_final_BLACK: "b64 (3000 - b64 (100 * (1 / 2 ^ 48))) = 3000 - 1 / 2 ^ 41"
  by code_simp

lemma estimate_b64_WHITE: "get_expected_elo_b64 Board WHITE 100 3000 = Inr (3000 + 1 / 2 ^ 41)"
  by (simp only: get_expected_elo_b64_def get_expected_elo_with_def penalty_b64_WHITE
      sum.case b64_final_WHITE)

lemma estimate_b64_BLACK: "get_expected_elo_b64 Board BLACK 100 3000 = Inr (3000 - 1 / 2 ^ 41)"
  by (simp only: get_expected_elo_b64_def get_expected_elo_with_def penalty_b64_BLACK
      sum.case b64_final_BLACK)

text \<open>
  C8 as the specification states it fails on the interpreter's arithmetic: for White and
  the default constants the estimate of the starting position is \<open>3000 + 2 ^ - 41\<close>
  (printed as 3000.0000000000005), not 3000.
\<close>

theorem starting_estimate_not_base_elo:
  "get_expected_elo_b64 Board WHITE 100 3000 = Inr (3000 + 1 / 2 ^ 41)
   \<and> get_expected_elo_b64 Board WHITE 100 3000 \<noteq> Inr 3000"
  by (simp add: estimate_b64_WHITE)

text \<open>
  C8, as amended. In exact arithmetic the signed penalty of the starting position is zero
  and the estimate is \<open>base_elo\<close>, for either side and any constants. In binary64, with the
  default constants, the penalty accumulates to \<open>- 2 ^ - 48\<close> for White and \<open>2 ^ - 48\<close> for
  Black, and the estimate is \<open>3000 + 2 ^ - 41\<close> and \<open>3000 - 2 ^ - 41\<close>: \<open>base_elo\<close> up to one
  unit in the last place.
\<close>

theorem estimate_of_starting_position:
  "get_expected_elo Board c p b = Inr b
   \<and> penalty_loop id Board c (piece_map Board) (0::real) = Inr 0
   \<and> get_expected_elo_b64 Board WHITE 100 3000 = Inr (3000 + 1 / 2 ^ 41)
   \<and> get_expected_elo_b64 Board BLACK 100 3000 = Inr (3000 - 1 / 2 ^ 41)"
  by (simp only: exact_estimate exact_penalty estimate_b64_WHITE estimate_b64_BLACK simp_thms)

theorem estimate_of_starting_position_witness:
  "get_expected_elo Board BLACK 100 3000 = Inr 3000
   \<and> get_expected_elo_b64 Board BLACK 100 3000 = Inr (3000 - 1 / 2 ^ 41)"
  using estimate_of_starting_position [of BLACK 100 3000] by simp

end
